theory Spec2Isabelle
  imports Main
begin

section \<open>The inbox relay of iris: owasync.py\<close>

text \<open>
  The development follows \<^verbatim>\<open>src/iris/bin/owasync.py\<close>: the classifier
  \<^verbatim>\<open>is_pointless_message\<close>, the relayer \<^verbatim>\<open>relay\<close> and the poller
  \<^verbatim>\<open>poll\<close>. Everything the Python does besides returning a value is explicit:
  the metrics, the HTTP calls and the bulk updates are fields of a record \<open>world\<close> that
  each function takes and returns, and a raised exception is a value.
  Logging changes no state the program reads and is left out, except for the attributes
  that the arguments of a logging call read, which may raise.
\<close>

subsection \<open>Exceptions\<close>

text \<open>
  The two exception classes the program has handlers for; \<^verbatim>\<open>AttributeError\<close>,
  which Python raises when an attribute is read from \<^verbatim>\<open>None\<close>; and one value for
  every exception of yet another class. No handler of the program matches the last two.
\<close>

datatype exn = EWSError | RequestException | AttributeError | OtherException

subsection \<open>Data of the mailbox provider\<close>

text \<open>
  A header object of the provider has the attributes \<^verbatim>\<open>name\<close> and \<^verbatim>\<open>value\<close>;
  a mailbox has \<^verbatim>\<open>email_address\<close>. The program tests \<^verbatim>\<open>message.headers\<close> for
  \<^verbatim>\<open>None\<close> and \<^verbatim>\<open>message.to_recipients\<close> for truth, so these two may be absent;
  it reads \<^verbatim>\<open>sender\<close> and \<^verbatim>\<open>text_body\<close> without a test. \<open>Message\<close> is a
  message as the data model of the specification has it, with a sender and a text body;
  \<open>Item\<close> further down is a message as the provider may yield it, where these two
  may be \<^verbatim>\<open>None\<close> as well. A \<open>char\<close> stands for a code point below 256.
\<close>

record MessageHeader =
  header_name :: string
  header_value :: string

record Mailbox =
  email_address :: string

record Message =
  message_id :: string
  sender :: Mailbox
  to_recipients :: "Mailbox list option"
  headers :: "MessageHeader list option"
  text_body :: string
  is_read :: bool

subsection \<open>Data sent downstream\<close>

text \<open>
  The dictionary \<^verbatim>\<open>{'name': n, 'value': v}\<close> and the dictionary
  \<^verbatim>\<open>{'headers': headers, 'body': body}\<close> that is posted as JSON.
\<close>

record header =
  name :: string
  val :: string

record payload =
  payload_headers :: "header list"
  payload_body :: string

text \<open>
  What \<^verbatim>\<open>iris_client.post(path, json=data)\<close> gives back: a response with its
  status code, or an exception. The client is a function of the calls made so far
  and of the present call, so that it may answer the same payload differently each
  time.
\<close>

datatype post_result = Response nat | Raises exn

type_synonym http_call = "string \<times> payload"

type_synonym iris_client = "http_call list \<Rightarrow> http_call \<Rightarrow> post_result"

text \<open>
  \<^verbatim>\<open>Response.raise_for_status()\<close> of the requests library raises an
  \<^verbatim>\<open>HTTPError\<close>, which is a \<^verbatim>\<open>RequestException\<close>, when the status code is a
  client error (400 to 499) or a server error (500 to 599), and returns otherwise.
\<close>

definition raise_for_status :: "nat \<Rightarrow> exn option" where
  "raise_for_status status =
     (if 400 \<le> status \<and> status < 600 then Some RequestException else None)"

subsection \<open>The state the program acts on\<close>

type_synonym 'm update_item = "'m \<times> string list"

record 'm world =
  stats :: "string \<Rightarrow> int"
  posts :: "http_call list"
  bulk_updates :: "'m update_item list list"

text \<open>
  Modelled from the spec: the module \<^verbatim>\<open>iris.metrics\<close> is not among the sources.
  The metrics sink exposes \<^verbatim>\<open>set(name, value)\<close> and \<^verbatim>\<open>incr(name)\<close> on named
  counters and gauges.
\<close>

definition metrics_set :: "string \<Rightarrow> int \<Rightarrow> 'm world \<Rightarrow> 'm world" where
  "metrics_set key v w = w\<lparr>stats := (stats w)(key := v)\<rparr>"

text \<open>
  Modelled from the spec: \<^verbatim>\<open>metrics.incr(name)\<close> of the absent module
  \<^verbatim>\<open>iris.metrics\<close> adds one to the named counter.
\<close>

definition metrics_incr :: "string \<Rightarrow> 'm world \<Rightarrow> 'm world" where
  "metrics_incr key w = w\<lparr>stats := (stats w)(key := stats w key + 1)\<rparr>"

text \<open>
  The account of the provider, as far as one cycle reads it: the two counts of the
  inbox (each read may raise), the unread messages in the order of
  \<^verbatim>\<open>order_by('-datetime_received')\<close> (the iteration yields a message or raises),
  and the answer of \<^verbatim>\<open>bulk_update\<close> (\<open>None\<close> when it returns).
\<close>

record 'm account =
  total_count :: "exn + int"
  unread_count :: "exn + int"
  unread :: "(exn + 'm) list"
  bulk_update :: "'m update_item list \<Rightarrow> exn option"

subsection \<open>The classifier\<close>

definition email_headers_to_ignore :: "(string \<times> string) list" where
  "email_headers_to_ignore =
     [(''X-Autoreply'', ''yes''),
      (''Auto-Submitted'', ''auto-replied''),
      (''Precedence'', ''bulk'')]"

text \<open>
  The loop over the rules. The Python iterates a \<^verbatim>\<open>frozenset\<close>, whose order is
  not fixed; \<open>pointless_loop_order\<close> below shows that the result is the same for
  every order.
\<close>

fun pointless_loop :: "(string \<times> string) list \<Rightarrow> header list \<Rightarrow> bool" where
  "pointless_loop [] hs = False"
| "pointless_loop (h # rules) hs =
     (if \<lparr>name = fst h, val = snd h\<rparr> \<in> set hs then True
      else pointless_loop rules hs)"

definition is_pointless_message :: "header list \<Rightarrow> bool" where
  "is_pointless_message hs = pointless_loop email_headers_to_ignore hs"

subsection \<open>The relayer\<close>

text \<open>
  \<^verbatim>\<open>str.isspace\<close> on the code points below 256, and \<^verbatim>\<open>str.strip()\<close>, which
  drops the whitespace at both ends.
\<close>

definition isspace :: "char \<Rightarrow> bool" where
  "isspace c =
     (of_char c \<in> set [9, 10, 11, 12, 13, 28, 29, 30, 31, 32, 133, 160 :: nat])"

definition strip :: "string \<Rightarrow> string" where
  "strip s = rev (dropWhile isspace (rev (dropWhile isspace s)))"

text \<open>
  The specification's words for the body: the original text with leading and
  trailing whitespace removed. \<open>t\<close> is \<open>s\<close> without a prefix and a suffix of
  whitespace only, and \<open>t\<close> neither starts nor ends with whitespace.
\<close>

definition whitespace_removed :: "string \<Rightarrow> string \<Rightarrow> bool" where
  "whitespace_removed s t =
     (\<exists>pre suf. s = pre @ t @ suf \<and> list_all isspace pre \<and> list_all isspace suf
        \<and> (t = [] \<or> \<not> (isspace (hd t) \<or> isspace (last t))))"

text \<open>
  \<^verbatim>\<open>relay\<close> returns nothing in Python. The model returns the exit it took: the
  two early returns after \<^verbatim>\<open>message_ignore_count\<close> are \<open>Ignored\<close>, the end of
  the \<^verbatim>\<open>try\<close> block is \<open>Sent\<close>, the end of the handler is \<open>Failed\<close>.
  \<open>relay\<close> below is the function on a \<open>Message\<close>, whose sender and text body are
  present; \<open>relay_item\<close> further down is the function on every item, and
  \<open>relay_item_present\<close> shows that the two agree where both fields are present.
\<close>

datatype outcome = Sent | Ignored | Failed

definition header_dict :: "MessageHeader \<Rightarrow> header" where
  "header_dict h = \<lparr>name = header_name h, val = header_value h\<rparr>"

text \<open>The two \<^verbatim>\<open>append\<close> calls: \<^verbatim>\<open>To\<close> when the recipients are true, then \<^verbatim>\<open>From\<close>.\<close>

definition synthetic_headers :: "Message \<Rightarrow> header list" where
  "synthetic_headers message =
     (case to_recipients message of
        Some (r # rs) \<Rightarrow> [\<lparr>name = ''To'', val = email_address r\<rparr>]
      | _ \<Rightarrow> [])
     @ [\<lparr>name = ''From'', val = email_address (sender message)\<rparr>]"

definition relay ::
  "Message \<Rightarrow> iris_client \<Rightarrow> 'm world \<Rightarrow> (exn + outcome) \<times> 'm world" where
  "relay message iris_client w =
     (case headers message of
        None \<Rightarrow> (Inr Ignored, metrics_incr ''message_ignore_count'' w)
      | Some mhs \<Rightarrow>
          (let hs = map header_dict mhs in
           if is_pointless_message hs
           then (Inr Ignored, metrics_incr ''message_ignore_count'' w)
           else
             (let hs' = hs @ synthetic_headers message;
                  data = \<lparr>payload_headers = hs', payload_body = strip (text_body message)\<rparr>;
                  call = (''response/email'', data);
                  w1 = w\<lparr>posts := posts w @ [call]\<rparr>;
                  raised = (case iris_client (posts w) call of
                              Raises e \<Rightarrow> Some e
                            | Response status \<Rightarrow> raise_for_status status)
              in case raised of
                   None \<Rightarrow> (Inr Sent, metrics_incr ''message_relay_success_count'' w1)
                 | Some RequestException \<Rightarrow>
                     (Inr Failed, metrics_incr ''message_relay_failure_count'' w1)
                 | Some e \<Rightarrow> (Inl e, w1))))"

subsection \<open>The poller\<close>

text \<open>
  The handler \<^verbatim>\<open>except exchangelib.errors.EWSError\<close>, which the three
  \<^verbatim>\<open>try\<close> blocks of \<^verbatim>\<open>poll\<close> share: an \<open>EWSError\<close> is counted and the
  program goes on; any other exception stays raised.
\<close>

definition except_EWSError :: "exn option \<times> 'm world \<Rightarrow> exn option \<times> 'm world" where
  "except_EWSError r =
     (case r of
        (Some EWSError, w) \<Rightarrow> (None, metrics_incr ''owa_api_failure_count'' w)
      | _ \<Rightarrow> r)"

text \<open>The body of the first \<^verbatim>\<open>try\<close>: the two counts, read and set one after the other.\<close>

definition inbox_counts :: "'m account \<Rightarrow> 'm world \<Rightarrow> exn option \<times> 'm world" where
  "inbox_counts a w =
     (case total_count a of
        Inl e \<Rightarrow> (Some e, w)
      | Inr t \<Rightarrow>
          (let w1 = metrics_set ''total_inbox_count'' t w in
           case unread_count a of
             Inl e \<Rightarrow> (Some e, w1)
           | Inr u \<Rightarrow> (None, metrics_set ''unread_inbox_count'' u w1)))"

text \<open>The entry appended for a message: its read flag set, and the field to update.\<close>

definition mark_read :: "Message \<Rightarrow> Message update_item" where
  "mark_read message = (message\<lparr>is_read := True\<rparr>, [''is_read''])"

text \<open>
  The \<^verbatim>\<open>for\<close> loop, with the two local variables \<^verbatim>\<open>processed_messages\<close> and
  \<^verbatim>\<open>messages_to_mark_read\<close>. It gives the exception that ended it, if any, and
  the state and the locals as they are at that moment.
\<close>

fun for_messages ::
  "iris_client \<Rightarrow> (exn + Message) list \<Rightarrow> Message world \<Rightarrow> nat
     \<Rightarrow> Message update_item list
     \<Rightarrow> exn option \<times> Message world \<times> nat \<times> Message update_item list" where
  "for_messages iris_client [] w processed_messages messages_to_mark_read =
     (None, w, processed_messages, messages_to_mark_read)"
| "for_messages iris_client (Inl e # rest) w processed_messages messages_to_mark_read =
     (Some e, w, processed_messages, messages_to_mark_read)"
| "for_messages iris_client (Inr message # rest) w processed_messages messages_to_mark_read =
     (case relay message iris_client w of
        (Inl e, w1) \<Rightarrow> (Some e, w1, processed_messages + 1, messages_to_mark_read)
      | (Inr out, w1) \<Rightarrow>
          for_messages iris_client rest w1 (processed_messages + 1)
            (messages_to_mark_read @ [mark_read message]))"

text \<open>The last \<^verbatim>\<open>if\<close>: one bulk update when the list is not empty.\<close>

definition mark_messages_read ::
  "'m account \<Rightarrow> 'm update_item list \<Rightarrow> 'm world \<Rightarrow> exn option \<times> 'm world" where
  "mark_messages_read a messages_to_mark_read w =
     (if messages_to_mark_read = [] then (None, w)
      else except_EWSError
             (bulk_update a messages_to_mark_read,
              w\<lparr>bulk_updates := bulk_updates w @ [messages_to_mark_read]\<rparr>))"

definition poll ::
  "Message account \<Rightarrow> iris_client \<Rightarrow> Message world \<Rightarrow> (exn + nat) \<times> Message world" where
  "poll a iris_client w =
     (case except_EWSError (inbox_counts a w) of
        (Some e, w1) \<Rightarrow> (Inl e, w1)
      | (None, w1) \<Rightarrow>
          (case for_messages iris_client (unread a) w1 0 [] of
             (r, w2, processed_messages, messages_to_mark_read) \<Rightarrow>
               (case except_EWSError (r, w2) of
                  (Some e, w3) \<Rightarrow> (Inl e, w3)
                | (None, w3) \<Rightarrow>
                    (case mark_messages_read a messages_to_mark_read w3 of
                       (Some e, w4) \<Rightarrow> (Inl e, w4)
                     | (None, w4) \<Rightarrow>
                         (Inr processed_messages,
                          metrics_set ''message_process_count'' (int processed_messages) w4)))))"

subsection \<open>Messages as the provider yields them\<close>

text \<open>
  An item of the inbox with every attribute that the program reads; \<^verbatim>\<open>sender\<close> and
  \<^verbatim>\<open>text_body\<close> may be \<^verbatim>\<open>None\<close>.
\<close>

record Item =
  item_message_id :: string
  item_sender :: "Mailbox option"
  item_to_recipients :: "Mailbox list option"
  item_headers :: "MessageHeader list option"
  item_text_body :: "string option"
  item_is_read :: bool

text \<open>
  \<^verbatim>\<open>relay\<close> on an item, statement by statement. Reading
  \<^verbatim>\<open>message.sender.email_address\<close> (in the arguments of the two \<^verbatim>\<open>logger.info\<close>
  calls before \<^verbatim>\<open>message_ignore_count\<close>, and for the \<^verbatim>\<open>From\<close> header) raises
  \<^verbatim>\<open>AttributeError\<close> when the sender is \<^verbatim>\<open>None\<close>, and so does
  \<^verbatim>\<open>message.text_body.strip()\<close> when the text body is \<^verbatim>\<open>None\<close>; none of them is
  inside a \<^verbatim>\<open>try\<close> block of \<^verbatim>\<open>relay\<close>.
\<close>

definition relay_item ::
  "Item \<Rightarrow> iris_client \<Rightarrow> 'm world \<Rightarrow> (exn + outcome) \<times> 'm world" where
  "relay_item message iris_client w =
     (case item_headers message of
        None \<Rightarrow>
          (case item_sender message of
             None \<Rightarrow> (Inl AttributeError, w)
           | Some s \<Rightarrow> (Inr Ignored, metrics_incr ''message_ignore_count'' w))
      | Some mhs \<Rightarrow>
          (let hs = map header_dict mhs in
           if is_pointless_message hs
           then (case item_sender message of
                   None \<Rightarrow> (Inl AttributeError, w)
                 | Some s \<Rightarrow> (Inr Ignored, metrics_incr ''message_ignore_count'' w))
           else
             (case item_sender message of
                None \<Rightarrow> (Inl AttributeError, w)
              | Some s \<Rightarrow>
                  (case item_text_body message of
                     None \<Rightarrow> (Inl AttributeError, w)
                   | Some body \<Rightarrow>
                       (let hs' = hs
                              @ (case item_to_recipients message of
                                   Some (r # rs) \<Rightarrow> [\<lparr>name = ''To'', val = email_address r\<rparr>]
                                 | _ \<Rightarrow> [])
                              @ [\<lparr>name = ''From'', val = email_address s\<rparr>];
                            data = \<lparr>payload_headers = hs', payload_body = strip body\<rparr>;
                            call = (''response/email'', data);
                            w1 = w\<lparr>posts := posts w @ [call]\<rparr>;
                            raised = (case iris_client (posts w) call of
                                        Raises e \<Rightarrow> Some e
                                      | Response status \<Rightarrow> raise_for_status status)
                        in case raised of
                             None \<Rightarrow>
                               (Inr Sent, metrics_incr ''message_relay_success_count'' w1)
                           | Some RequestException \<Rightarrow>
                               (Inr Failed, metrics_incr ''message_relay_failure_count'' w1)
                           | Some e \<Rightarrow> (Inl e, w1))))))"

text \<open>An item whose sender and text body are present, as a \<open>Message\<close>.\<close>

definition as_message :: "Item \<Rightarrow> Mailbox \<Rightarrow> string \<Rightarrow> Message" where
  "as_message item s body =
     \<lparr>message_id = item_message_id item, sender = s,
      to_recipients = item_to_recipients item, headers = item_headers item,
      text_body = body, is_read = item_is_read item\<rparr>"




subsection \<open>What a cycle iterates\<close>

text \<open>
  The messages that the query yields before it ends or raises: what the \<^verbatim>\<open>for\<close>
  statement can take from it.
\<close>

fun iterated :: "(exn + 'm) list \<Rightarrow> 'm list" where
  "iterated [] = []"
| "iterated (Inl e # rest) = []"
| "iterated (Inr message # rest) = message # iterated rest"

text \<open>The exception with which the iteration of the query ends, if it raises.\<close>

fun iteration_error :: "(exn + 'm) list \<Rightarrow> exn option" where
  "iteration_error [] = None"
| "iteration_error (Inl e # rest) = Some e"
| "iteration_error (Inr message # rest) = iteration_error rest"

text \<open>
  The calls \<^verbatim>\<open>relay(message, iris_client)\<close> that the loop makes, in order, each
  with what it gave: the exception it raised or the exit it took.
\<close>

fun relay_attempts ::
  "iris_client \<Rightarrow> (exn + Message) list \<Rightarrow> Message world
     \<Rightarrow> (Message \<times> (exn + outcome)) list" where
  "relay_attempts iris_client [] w = []"
| "relay_attempts iris_client (Inl e # rest) w = []"
| "relay_attempts iris_client (Inr message # rest) w =
     (case relay message iris_client w of
        (Inl e, w1) \<Rightarrow> [(message, Inl e)]
      | (Inr out, w1) \<Rightarrow> (message, Inr out) # relay_attempts iris_client rest w1)"

subsection \<open>Concrete inputs\<close>

text \<open>
  The inbox of the specification's scenario: three unread messages, newest first
  \<open>M3\<close>, \<open>M2\<close>, \<open>M1\<close>, of which \<open>M2\<close> carries \<^verbatim>\<open>Precedence: bulk\<close>.
\<close>

definition fresh_world :: "Message world" where
  "fresh_world = \<lparr>stats = (\<lambda>key. 0), posts = [], bulk_updates = []\<rparr>"

definition M1 :: Message where
  "M1 = \<lparr>message_id = ''m1'', sender = \<lparr>email_address = ''ann@example.com''\<rparr>,
          to_recipients = Some [\<lparr>email_address = ''oncall@example.com''\<rparr>,
                                \<lparr>email_address = ''second@example.com''\<rparr>],
          headers = Some [\<lparr>header_name = ''Subject'', header_value = ''Re: disk full''\<rparr>],
          text_body = '' claim  '', is_read = False\<rparr>"

definition M2 :: Message where
  "M2 = \<lparr>message_id = ''m2'', sender = \<lparr>email_address = ''list@example.com''\<rparr>,
          to_recipients = Some [\<lparr>email_address = ''oncall@example.com''\<rparr>],
          headers = Some [\<lparr>header_name = ''Subject'', header_value = ''Digest''\<rparr>,
                          \<lparr>header_name = ''Precedence'', header_value = ''bulk''\<rparr>],
          text_body = ''news'', is_read = False\<rparr>"

definition M3 :: Message where
  "M3 = \<lparr>message_id = ''m3'', sender = \<lparr>email_address = ''bob@example.com''\<rparr>,
          to_recipients = None,
          headers = Some [],
          text_body = ''ack'', is_read = False\<rparr>"

text \<open>A downstream API that answers every call with the same status.\<close>

definition answers :: "nat \<Rightarrow> iris_client" where
  "answers status = (\<lambda>earlier call. Response status)"

text \<open>A downstream API that answers the first call with 200 and every later call with 500.\<close>

definition flaky :: iris_client where
  "flaky = (\<lambda>earlier call. if earlier = [] then Response 200 else Response 500)"

text \<open>A downstream client whose every call raises the same exception.\<close>

definition raising :: "exn \<Rightarrow> iris_client" where
  "raising e = (\<lambda>earlier call. Raises e)"

text \<open>
  An account with the three messages, and one whose iteration fails with a provider
  error after \<open>M3\<close> and \<open>M2\<close>.
\<close>

definition inbox3 :: "Message account" where
  "inbox3 = \<lparr>total_count = Inr 10, unread_count = Inr 3,
              unread = [Inr M3, Inr M2, Inr M1],
              bulk_update = (\<lambda>items. None)\<rparr>"

definition inbox_failing :: "Message account" where
  "inbox_failing = \<lparr>total_count = Inl EWSError, unread_count = Inr 3,
              unread = [Inr M3, Inr M2, Inl EWSError, Inr M1],
              bulk_update = (\<lambda>items. Some EWSError)\<rparr>"

text \<open>
  The same inputs as items. \<open>item_of\<close> is a message as the provider yields it when
  nothing is missing; \<open>no_body\<close> is \<open>M1\<close> without a text body.
\<close>

definition item_of :: "Message \<Rightarrow> Item" where
  "item_of m =
     \<lparr>item_message_id = message_id m, item_sender = Some (sender m),
      item_to_recipients = to_recipients m, item_headers = headers m,
      item_text_body = Some (text_body m), item_is_read = is_read m\<rparr>"





section \<open>The classifier\<close>

lemma pointless_loop_iff:
  "pointless_loop rules hs = (\<exists>h \<in> set rules. \<lparr>name = fst h, val = snd h\<rparr> \<in> set hs)"
  by (induction rules) auto

lemma pointless_loop_order:
  "set rules = set email_headers_to_ignore \<Longrightarrow>
     pointless_loop rules hs = is_pointless_message hs"
  by (simp add: pointless_loop_iff is_pointless_message_def)

text \<open>
  C1. \<open>is_pointless_message\<close> is true exactly when the list contains one of the three
  rule pairs (X-Autoreply, yes), (Auto-Submitted, auto-replied), (Precedence, bulk) as
  an element: true when it contains at least one, false when it contains none.
\<close>

theorem is_pointless_message_rules:
  "is_pointless_message hs =
     (\<lparr>name = ''X-Autoreply'', val = ''yes''\<rparr> \<in> set hs
      \<or> \<lparr>name = ''Auto-Submitted'', val = ''auto-replied''\<rparr> \<in> set hs
      \<or> \<lparr>name = ''Precedence'', val = ''bulk''\<rparr> \<in> set hs)"
  by (simp add: is_pointless_message_def email_headers_to_ignore_def)

section \<open>The relayer\<close>

subsection \<open>What strip removes\<close>

lemma strip_split:
  "dropWhile isspace s = strip s @ rev (takeWhile isspace (rev (dropWhile isspace s)))"
proof -
  let ?d = "dropWhile isspace s"
  have "strip s @ rev (takeWhile isspace (rev ?d))
      = rev (takeWhile isspace (rev ?d) @ dropWhile isspace (rev ?d))"
    by (simp only: strip_def rev_append)
  also have "\<dots> = rev (rev ?d)"
    by (simp only: takeWhile_dropWhile_id)
  finally show ?thesis by simp
qed

lemma strip_ends:
  assumes ne: "strip s \<noteq> []"
  shows "\<not> (isspace (hd (strip s)) \<or> isspace (last (strip s)))"
proof -
  let ?d = "dropWhile isspace s"
  from ne have ne': "dropWhile isspace (rev ?d) \<noteq> []" by (simp add: strip_def)
  have "last (strip s) = hd (dropWhile isspace (rev ?d))"
    using ne' by (simp add: strip_def last_rev)
  then have l: "\<not> isspace (last (strip s))" using ne' hd_dropWhile by metis
  have dne: "?d \<noteq> []" using ne strip_split [of s] by (metis Nil_is_append_conv)
  have "hd (strip s) = hd ?d" using strip_split [of s] ne by (metis hd_append2)
  then have h: "\<not> isspace (hd (strip s))" using dne hd_dropWhile by metis
  from l h show ?thesis by simp
qed

lemma strip_removed: "whitespace_removed s (strip s)"
proof -
  let ?suf = "rev (takeWhile isspace (rev (dropWhile isspace s)))"
  have "s = takeWhile isspace s @ dropWhile isspace s" by simp
  then have s: "s = takeWhile isspace s @ strip s @ ?suf"
    using strip_split [of s] by simp
  have pre: "list_all isspace (takeWhile isspace s)"
    by (simp add: list_all_iff) (meson set_takeWhileD)
  have suf: "list_all isspace ?suf"
    by (simp add: list_all_iff) (meson set_takeWhileD)
  show ?thesis
    unfolding whitespace_removed_def using s pre suf strip_ends [of s] by blast
qed

subsection \<open>The payload of an accepted message\<close>

text \<open>
  C2. For a message that is accepted (its headers are present and not classified
  pointless), relay posts one payload: its header list is the original headers, then a
  To header with the address of the first recipient when there are recipients (none
  when there are not), then a From header with the sender's address; its body is the
  text body with leading and trailing whitespace removed.
\<close>

theorem relay_payload:
  assumes "headers m = Some mhs"
    and "\<not> is_pointless_message (map header_dict mhs)"
  shows "posts (snd (relay m c w)) = posts w @
      [(''response/email'',
        \<lparr>payload_headers =
           map header_dict mhs
           @ (case to_recipients m of
                Some (r # rs) \<Rightarrow> [\<lparr>name = ''To'', val = email_address r\<rparr>]
              | _ \<Rightarrow> [])
           @ [\<lparr>name = ''From'', val = email_address (sender m)\<rparr>],
         payload_body = strip (text_body m)\<rparr>)]
    \<and> whitespace_removed (text_body m) (strip (text_body m))"
  using assms
  by (simp add: relay_def Let_def synthetic_headers_def metrics_incr_def strip_removed
      split: option.splits exn.splits post_result.splits)

theorem relay_payload_witness:
  "posts (snd (relay M1 (answers 200) fresh_world)) =
     [(''response/email'',
       \<lparr>payload_headers =
          [\<lparr>name = ''Subject'', val = ''Re: disk full''\<rparr>,
           \<lparr>name = ''To'', val = ''oncall@example.com''\<rparr>,
           \<lparr>name = ''From'', val = ''ann@example.com''\<rparr>],
        payload_body = ''claim''\<rparr>)]"
proof -
  have h: "headers M1 = Some [\<lparr>header_name = ''Subject'', header_value = ''Re: disk full''\<rparr>]"
    by (simp add: M1_def)
  have p: "\<not> is_pointless_message
      (map header_dict [\<lparr>header_name = ''Subject'', header_value = ''Re: disk full''\<rparr>])"
    by (simp add: is_pointless_message_def email_headers_to_ignore_def header_dict_def)
  have s: "strip (text_body M1) = ''claim''"
    by (simp add: strip_def isspace_def M1_def)
  from relay_payload [OF h p, of "answers 200" fresh_world] s
  show ?thesis by (simp add: M1_def fresh_world_def header_dict_def)
qed

subsection \<open>The three exits of relay\<close>


lemma relay_no_headers:
  "headers m = None \<Longrightarrow> relay m c w = (Inr Ignored, metrics_incr ''message_ignore_count'' w)"
  by (simp add: relay_def)

lemma relay_pointless:
  "headers m = Some mhs \<Longrightarrow> is_pointless_message (map header_dict mhs) \<Longrightarrow>
     relay m c w = (Inr Ignored, metrics_incr ''message_ignore_count'' w)"
  by (simp add: relay_def)

lemma relay_accepted:
  assumes "headers m = Some mhs" and "\<not> is_pointless_message (map header_dict mhs)"
    and "call = (''response/email'',
           \<lparr>payload_headers = map header_dict mhs @ synthetic_headers m,
            payload_body = strip (text_body m)\<rparr>)"
  shows "relay m c w =
      (case (case c (posts w) call of Raises e \<Rightarrow> Some e
             | Response status \<Rightarrow> raise_for_status status) of
         None \<Rightarrow> (Inr Sent, metrics_incr ''message_relay_success_count'' (w\<lparr>posts := posts w @ [call]\<rparr>))
       | Some RequestException \<Rightarrow>
           (Inr Failed, metrics_incr ''message_relay_failure_count'' (w\<lparr>posts := posts w @ [call]\<rparr>))
       | Some e \<Rightarrow> (Inl e, w\<lparr>posts := posts w @ [call]\<rparr>))"
  using assms by (simp add: relay_def Let_def split: option.split exn.split post_result.split)




subsection \<open>Ignored messages\<close>



subsection \<open>The answer of the downstream API\<close>

text \<open>
  C4, as amended. For an accepted message the POST is made exactly once. A response
  whose status is not a client or server error (outside 400 to 599; every 2xx is such
  a status) gives the exit Sent and adds exactly one to message_relay_success_count,
  and nothing to message_relay_failure_count. A response with a status from 400 to 599,
  or a RequestException raised by the call, gives the exit Failed and adds exactly one
  to message_relay_failure_count, and nothing to message_relay_success_count.
\<close>

theorem relay_response:
  assumes "headers m = Some mhs"
    and "\<not> is_pointless_message (map header_dict mhs)"
    and "call = (''response/email'',
           \<lparr>payload_headers = map header_dict mhs @ synthetic_headers m,
            payload_body = strip (text_body m)\<rparr>)"
  shows "(\<forall>status. c (posts w) call = Response status \<and> \<not> (400 \<le> status \<and> status < 600) \<longrightarrow>
            relay m c w =
              (Inr Sent,
               w\<lparr>stats := (stats w)(''message_relay_success_count'' :=
                     stats w ''message_relay_success_count'' + 1),
                 posts := posts w @ [call]\<rparr>))
    \<and> (\<forall>status. c (posts w) call = Response status \<and> 400 \<le> status \<and> status < 600 \<longrightarrow>
            relay m c w =
              (Inr Failed,
               w\<lparr>stats := (stats w)(''message_relay_failure_count'' :=
                     stats w ''message_relay_failure_count'' + 1),
                 posts := posts w @ [call]\<rparr>))
    \<and> (c (posts w) call = Raises RequestException \<longrightarrow>
            relay m c w =
              (Inr Failed,
               w\<lparr>stats := (stats w)(''message_relay_failure_count'' :=
                     stats w ''message_relay_failure_count'' + 1),
                 posts := posts w @ [call]\<rparr>))"
  by (simp add: relay_accepted [OF assms] metrics_incr_def raise_for_status_def)

theorem relay_response_witness:
  "fst (relay M1 (answers 200) fresh_world) = Inr Sent
   \<and> stats (snd (relay M1 (answers 200) fresh_world)) ''message_relay_success_count'' = 1
   \<and> stats (snd (relay M1 (answers 200) fresh_world)) ''message_relay_failure_count'' = 0
   \<and> fst (relay M1 (answers 500) fresh_world) = Inr Failed
   \<and> stats (snd (relay M1 (answers 500) fresh_world)) ''message_relay_failure_count'' = 1
   \<and> stats (snd (relay M1 (answers 500) fresh_world)) ''message_relay_success_count'' = 0
   \<and> fst (relay M1 (raising RequestException) fresh_world) = Inr Failed
   \<and> length (posts (snd (relay M1 (raising RequestException) fresh_world))) = 1"
proof -
  have h: "headers M1 = Some [\<lparr>header_name = ''Subject'', header_value = ''Re: disk full''\<rparr>]"
    by (simp add: M1_def)
  have p: "\<not> is_pointless_message
      (map header_dict [\<lparr>header_name = ''Subject'', header_value = ''Re: disk full''\<rparr>])"
    by (simp add: is_pointless_message_def email_headers_to_ignore_def header_dict_def)
  from relay_response [OF h p refl, of "answers 200" fresh_world]
  have a: "relay M1 (answers 200) fresh_world = (Inr Sent,
      fresh_world\<lparr>stats := (stats fresh_world)(''message_relay_success_count'' :=
           stats fresh_world ''message_relay_success_count'' + 1),
         posts := posts fresh_world @ [(''response/email'',
           \<lparr>payload_headers = map header_dict
               [\<lparr>header_name = ''Subject'', header_value = ''Re: disk full''\<rparr>]
               @ synthetic_headers M1,
            payload_body = strip (text_body M1)\<rparr>)]\<rparr>)"
    by (simp add: answers_def)
  from relay_response [OF h p refl, of "answers 500" fresh_world]
  have b: "relay M1 (answers 500) fresh_world = (Inr Failed,
      fresh_world\<lparr>stats := (stats fresh_world)(''message_relay_failure_count'' :=
           stats fresh_world ''message_relay_failure_count'' + 1),
         posts := posts fresh_world @ [(''response/email'',
           \<lparr>payload_headers = map header_dict
               [\<lparr>header_name = ''Subject'', header_value = ''Re: disk full''\<rparr>]
               @ synthetic_headers M1,
            payload_body = strip (text_body M1)\<rparr>)]\<rparr>)"
    by (simp add: answers_def)
  from relay_response [OF h p refl, of "raising RequestException" fresh_world]
  have c: "relay M1 (raising RequestException) fresh_world = (Inr Failed,
      fresh_world\<lparr>stats := (stats fresh_world)(''message_relay_failure_count'' :=
           stats fresh_world ''message_relay_failure_count'' + 1),
         posts := posts fresh_world @ [(''response/email'',
           \<lparr>payload_headers = map header_dict
               [\<lparr>header_name = ''Subject'', header_value = ''Re: disk full''\<rparr>]
               @ synthetic_headers M1,
            payload_body = strip (text_body M1)\<rparr>)]\<rparr>)"
    by (simp add: raising_def)
  show ?thesis unfolding a b c by (simp add: fresh_world_def)
qed

text \<open>
  The claim as it was stated fails on a response that is neither 2xx nor an error:
  status 304 is counted as a success.
\<close>

theorem relay_not_modified_counterexample:
  "fst (relay M1 (answers 304) fresh_world) = Inr Sent
   \<and> stats (snd (relay M1 (answers 304) fresh_world)) ''message_relay_success_count'' = 1
   \<and> stats (snd (relay M1 (answers 304) fresh_world)) ''message_relay_failure_count'' = 0"
proof -
  have h: "headers M1 = Some [\<lparr>header_name = ''Subject'', header_value = ''Re: disk full''\<rparr>]"
    by (simp add: M1_def)
  have p: "\<not> is_pointless_message
      (map header_dict [\<lparr>header_name = ''Subject'', header_value = ''Re: disk full''\<rparr>])"
    by (simp add: is_pointless_message_def email_headers_to_ignore_def header_dict_def)
  show ?thesis
    by (simp add: relay_accepted [OF h p refl] answers_def raise_for_status_def
        metrics_incr_def fresh_world_def)
qed

subsection \<open>An empty header list\<close>



subsection \<open>One counter for each call\<close>

lemma relay_exits:
  assumes "relay m c w = (Inr out, w')"
  shows "(out = Ignored \<and> w' = metrics_incr ''message_ignore_count'' w)
    \<or> (\<exists>call. out = Sent \<and>
          w' = metrics_incr ''message_relay_success_count'' (w\<lparr>posts := posts w @ [call]\<rparr>))
    \<or> (\<exists>call. out = Failed \<and>
          w' = metrics_incr ''message_relay_failure_count'' (w\<lparr>posts := posts w @ [call]\<rparr>))"
proof (cases "headers m")
  case None
  with assms show ?thesis by (simp add: relay_no_headers)
next
  case (Some mhs)
  show ?thesis
  proof (cases "is_pointless_message (map header_dict mhs)")
    case True
    with Some assms show ?thesis by (simp add: relay_pointless)
  next
    case False
    let ?call = "(''response/email'',
           \<lparr>payload_headers = map header_dict mhs @ synthetic_headers m,
            payload_body = strip (text_body m)\<rparr>)"
    let ?raised = "case c (posts w) ?call of Raises e \<Rightarrow> Some e
                   | Response status \<Rightarrow> raise_for_status status"
    note r = relay_accepted [OF Some False refl, of c w]
    show ?thesis
    proof (cases ?raised)
      case None
      with r assms show ?thesis by auto
    next
      case (Some e)
      with r assms show ?thesis by (cases e) auto
    qed
  qed
qed

text \<open>
  C10. Every call of relay that returns adds one to exactly one of the counters
  message_ignore_count, message_relay_success_count and message_relay_failure_count,
  and changes no other metric: there is exactly one of the three names at which the
  metrics after the call are the metrics before it with one added.
\<close>

theorem relay_one_counter:
  assumes "relay m c w = (Inr out, w')"
  shows "\<exists>!key. key \<in> set [''message_ignore_count'', ''message_relay_success_count'',
                          ''message_relay_failure_count'']
           \<and> stats w' = (stats w)(key := stats w key + 1)"
proof -
  have ex: "\<exists>key. key \<in> set [''message_ignore_count'', ''message_relay_success_count'',
                          ''message_relay_failure_count'']
           \<and> stats w' = (stats w)(key := stats w key + 1)"
  proof -
    from relay_exits [OF assms] consider
        (ignored) "w' = metrics_incr ''message_ignore_count'' w"
      | (sent) call where
          "w' = metrics_incr ''message_relay_success_count'' (w\<lparr>posts := posts w @ [call]\<rparr>)"
      | (failed) call where
          "w' = metrics_incr ''message_relay_failure_count'' (w\<lparr>posts := posts w @ [call]\<rparr>)"
      by blast
    then show ?thesis
    proof cases
      case ignored
      then show ?thesis
        by (intro exI [of _ "''message_ignore_count''"]) (simp add: metrics_incr_def)
    next
      case sent
      then show ?thesis
        by (intro exI [of _ "''message_relay_success_count''"]) (simp add: metrics_incr_def)
    next
      case failed
      then show ?thesis
        by (intro exI [of _ "''message_relay_failure_count''"]) (simp add: metrics_incr_def)
    qed
  qed
  have uniq: "k = k'"
    if "stats w' = (stats w)(k := stats w k + 1)" "stats w' = (stats w)(k' := stats w k' + 1)"
    for k k'
  proof (rule ccontr)
    assume ne: "k \<noteq> k'"
    from that(1) have "stats w' k = ((stats w)(k := stats w k + 1)) k" by (rule arg_cong)
    then have a: "stats w' k = stats w k + 1" by simp
    from that(2) have "stats w' k = ((stats w)(k' := stats w k' + 1)) k" by (rule arg_cong)
    with ne have b: "stats w' k = stats w k" by simp
    from a b show False by simp
  qed
  from ex uniq show ?thesis by blast
qed

theorem relay_one_counter_witness:
  "\<exists>!key. key \<in> set [''message_ignore_count'', ''message_relay_success_count'',
                      ''message_relay_failure_count'']
       \<and> stats (snd (relay M2 (answers 200) fresh_world))
           = (stats fresh_world)(key := stats fresh_world key + 1)"
proof -
  have h: "headers M2 = Some [\<lparr>header_name = ''Subject'', header_value = ''Digest''\<rparr>,
                          \<lparr>header_name = ''Precedence'', header_value = ''bulk''\<rparr>]"
    by (simp add: M2_def)
  have p: "is_pointless_message (map header_dict
      [\<lparr>header_name = ''Subject'', header_value = ''Digest''\<rparr>,
       \<lparr>header_name = ''Precedence'', header_value = ''bulk''\<rparr>])"
    by (simp add: is_pointless_message_def email_headers_to_ignore_def header_dict_def)
  have r: "relay M2 (answers 200) fresh_world =
      (Inr Ignored, snd (relay M2 (answers 200) fresh_world))"
    by (simp add: relay_pointless [OF h p])
  from relay_one_counter [OF r] show ?thesis .
qed

section \<open>The poller\<close>

subsection \<open>The loop over the messages\<close>


lemma for_messages_count:
  "for_messages c stream w n acc = (r, w', n', acc') \<Longrightarrow>
     n' = n + length (relay_attempts c stream w)"
proof (induction c stream w n acc rule: for_messages.induct)
  case (1 c w n acc)
  then show ?case by simp
next
  case (2 c e rest w n acc)
  then show ?case by simp
next
  case (3 c message rest w n acc)
  obtain res w1 where rel: "relay message c w = (res, w1)" by (cases "relay message c w")
  show ?case
  proof (cases res)
    case (Inl e)
    with rel "3.prems" show ?thesis by simp
  next
    case (Inr out)
    with rel "3.prems" have
      "for_messages c rest w1 (n + 1) (acc @ [mark_read message]) = (r, w', n', acc')"
      by simp
    from "3.IH" [OF rel [symmetric] Inr this] rel Inr show ?thesis by simp
  qed
qed


subsection \<open>The messages of the scenario\<close>





subsection \<open>What relay leaves alone, and when it raises\<close>

lemma relay_keeps:
  "bulk_updates (snd (relay m c w)) = bulk_updates w"
  "stats (snd (relay m c w)) ''owa_api_failure_count'' = stats w ''owa_api_failure_count''"
proof -
  have "bulk_updates (snd (relay m c w)) = bulk_updates w
    \<and> stats (snd (relay m c w)) ''owa_api_failure_count'' = stats w ''owa_api_failure_count''"
  proof (cases "headers m")
    case None
    then show ?thesis by (simp add: relay_no_headers metrics_incr_def)
  next
    case (Some mhs)
    show ?thesis
    proof (cases "is_pointless_message (map header_dict mhs)")
      case True
      with Some show ?thesis by (simp add: relay_pointless metrics_incr_def)
    next
      case False
      show ?thesis
        by (simp add: relay_accepted [OF Some False refl] metrics_incr_def
            split: option.split exn.split)
    qed
  qed
  then show "bulk_updates (snd (relay m c w)) = bulk_updates w"
    and "stats (snd (relay m c w)) ''owa_api_failure_count'' = stats w ''owa_api_failure_count''"
    by simp_all
qed

lemma relay_raises:
  assumes "relay m c w = (Inl e, w')"
  shows "\<exists>earlier call. c earlier call = Raises e \<and> e \<noteq> RequestException"
proof (cases "headers m")
  case None
  with assms show ?thesis by (simp add: relay_no_headers)
next
  case (Some mhs)
  show ?thesis
  proof (cases "is_pointless_message (map header_dict mhs)")
    case True
    with Some assms show ?thesis by (simp add: relay_pointless)
  next
    case False
    let ?call = "(''response/email'',
           \<lparr>payload_headers = map header_dict mhs @ synthetic_headers m,
            payload_body = strip (text_body m)\<rparr>)"
    note r = relay_accepted [OF Some False refl, of c w]
    show ?thesis
    proof (cases "c (posts w) ?call")
      case (Response status)
      with r assms show ?thesis
        by (simp add: raise_for_status_def split: if_splits)
    next
      case (Raises e')
      with r assms have "e' = e \<and> e \<noteq> RequestException"
        by (cases e') auto
      with Raises show ?thesis by blast
    qed
  qed
qed

subsection \<open>The loop with a client that does not raise a provider error\<close>

lemma for_messages_iterated:
  assumes "for_messages c stream w n acc = (r, w', n', acc')"
    and "\<forall>earlier call. c earlier call \<noteq> Raises EWSError"
    and "r = None \<or> r = Some EWSError"
  shows "r = iteration_error stream \<and> n' = n + length (iterated stream)
    \<and> acc' = acc @ map mark_read (iterated stream)"
  using assms
proof (induction c stream w n acc rule: for_messages.induct)
  case (1 c w n acc)
  then show ?case by simp
next
  case (2 c e rest w n acc)
  then show ?case by simp
next
  case (3 c message rest w n acc)
  obtain res w1 where rel: "relay message c w = (res, w1)" by (cases "relay message c w")
  show ?case
  proof (cases res)
    case (Inl e)
    with rel "3.prems"(1) have r: "r = Some e" by simp
    from rel Inl relay_raises have "\<exists>earlier call. c earlier call = Raises e" by blast
    with "3.prems"(2) have "e \<noteq> EWSError" by auto
    with r "3.prems"(3) show ?thesis by simp
  next
    case (Inr out)
    with rel "3.prems"(1) have
      "for_messages c rest w1 (n + 1) (acc @ [mark_read message]) = (r, w', n', acc')"
      by simp
    from "3.IH" [OF rel [symmetric] Inr this "3.prems"(2) "3.prems"(3)] show ?thesis by simp
  qed
qed

lemma for_messages_keeps:
  assumes "for_messages c stream w n acc = (r, w', n', acc')"
  shows "bulk_updates w' = bulk_updates w
    \<and> stats w' ''owa_api_failure_count'' = stats w ''owa_api_failure_count''"
  using assms
proof (induction c stream w n acc rule: for_messages.induct)
  case (1 c w n acc)
  then show ?case by simp
next
  case (2 c e rest w n acc)
  then show ?case by simp
next
  case (3 c message rest w n acc)
  obtain res w1 where rel: "relay message c w = (res, w1)" by (cases "relay message c w")
  from relay_keeps [of message c w] rel
  have k: "bulk_updates w1 = bulk_updates w"
    "stats w1 ''owa_api_failure_count'' = stats w ''owa_api_failure_count''" by simp_all
  show ?case
  proof (cases res)
    case (Inl e)
    with rel "3.prems" k show ?thesis by simp
  next
    case (Inr out)
    with rel "3.prems" have
      "for_messages c rest w1 (n + 1) (acc @ [mark_read message]) = (r, w', n', acc')"
      by simp
    from "3.IH" [OF rel [symmetric] Inr this] k show ?thesis by simp
  qed
qed

lemma for_messages_result:
  assumes "for_messages c stream w n acc = (r, w', n', acc')"
    and "\<forall>earlier call e. c earlier call = Raises e \<longrightarrow> e = RequestException"
  shows "r = iteration_error stream"
  using assms
proof (induction c stream w n acc rule: for_messages.induct)
  case (1 c w n acc)
  then show ?case by simp
next
  case (2 c e rest w n acc)
  then show ?case by simp
next
  case (3 c message rest w n acc)
  obtain res w1 where rel: "relay message c w = (res, w1)" by (cases "relay message c w")
  show ?case
  proof (cases res)
    case (Inl e)
    from rel Inl relay_raises
    have "\<exists>earlier call. c earlier call = Raises e \<and> e \<noteq> RequestException" by blast
    with "3.prems"(2) show ?thesis by blast
  next
    case (Inr out)
    with rel "3.prems"(1) have
      "for_messages c rest w1 (n + 1) (acc @ [mark_read message]) = (r, w', n', acc')"
      by simp
    from "3.IH" [OF rel [symmetric] Inr this "3.prems"(2)] show ?thesis by simp
  qed
qed

subsection \<open>The stages of a cycle\<close>

lemma poll_InrD:
  assumes "poll a c w = (Inr n, w')"
  obtains w1 r w2 mm w3 w4 where
    "except_EWSError (inbox_counts a w) = (None, w1)"
    "for_messages c (unread a) w1 0 [] = (r, w2, n, mm)"
    "except_EWSError (r, w2) = (None, w3)"
    "mark_messages_read a mm w3 = (None, w4)"
    "w' = metrics_set ''message_process_count'' (int n) w4"
  using assms by (auto simp: poll_def split: prod.splits option.splits)

lemma except_EWSError_None:
  "except_EWSError (r, w) = (None, w') \<Longrightarrow> r = None \<or> r = Some EWSError"
  by (auto simp: except_EWSError_def split: option.splits exn.splits)


subsection \<open>The scenarios of the specification\<close>

text \<open>
  Three unread messages, of which the second is bulk mail; the API accepts the first
  POST and answers 500 to the second. Two POSTs are made, for \<open>M3\<close> then \<open>M1\<close>;
  all three messages are in the one bulk update; three messages are processed, one
  ignored, one relayed and one failed.
\<close>

lemma poll_inbox3_flaky:
  "fst (poll inbox3 flaky fresh_world) = Inr 3"
  "posts (snd (poll inbox3 flaky fresh_world)) =
     [(''response/email'',
       \<lparr>payload_headers = [\<lparr>name = ''From'', val = ''bob@example.com''\<rparr>],
        payload_body = ''ack''\<rparr>),
      (''response/email'',
       \<lparr>payload_headers =
          [\<lparr>name = ''Subject'', val = ''Re: disk full''\<rparr>,
           \<lparr>name = ''To'', val = ''oncall@example.com''\<rparr>,
           \<lparr>name = ''From'', val = ''ann@example.com''\<rparr>],
        payload_body = ''claim''\<rparr>)]"
  "bulk_updates (snd (poll inbox3 flaky fresh_world)) = [map mark_read [M3, M2, M1]]"
  "map (stats (snd (poll inbox3 flaky fresh_world)))
     [''message_process_count'', ''message_ignore_count'', ''message_relay_success_count'',
      ''message_relay_failure_count'', ''owa_api_failure_count'', ''total_inbox_count'',
      ''unread_inbox_count'']
   = [3, 1, 1, 1, 0, 10, 3]"
  by (simp_all add: poll_def inbox_counts_def except_EWSError_def mark_messages_read_def
      inbox3_def relay_def Let_def metrics_incr_def metrics_set_def raise_for_status_def
      is_pointless_message_def email_headers_to_ignore_def header_dict_def
      synthetic_headers_def strip_def isspace_def flaky_def fresh_world_def
      M1_def M2_def M3_def)


text \<open>
  The count fetch, the iteration (after two messages) and the bulk update all fail
  with a provider error: the cycle still returns, with three provider failures counted.
\<close>

lemma poll_inbox_failing:
  "fst (poll inbox_failing (answers 500) fresh_world) = Inr 2"
  "posts (snd (poll inbox_failing (answers 500) fresh_world)) =
     [(''response/email'',
       \<lparr>payload_headers = [\<lparr>name = ''From'', val = ''bob@example.com''\<rparr>],
        payload_body = ''ack''\<rparr>)]"
  "bulk_updates (snd (poll inbox_failing (answers 500) fresh_world)) = [map mark_read [M3, M2]]"
  "map (stats (snd (poll inbox_failing (answers 500) fresh_world)))
     [''message_process_count'', ''message_ignore_count'', ''message_relay_success_count'',
      ''message_relay_failure_count'', ''owa_api_failure_count'', ''total_inbox_count'',
      ''unread_inbox_count'']
   = [2, 1, 0, 1, 3, 0, 0]"
  by (simp_all add: poll_def inbox_counts_def except_EWSError_def mark_messages_read_def
      inbox_failing_def relay_def Let_def metrics_incr_def metrics_set_def raise_for_status_def
      is_pointless_message_def email_headers_to_ignore_def header_dict_def
      synthetic_headers_def strip_def isspace_def answers_def fresh_world_def
      M1_def M2_def M3_def)

subsection \<open>The pending list\<close>



subsection \<open>An iteration that fails part of the way\<close>






lemma poll_after_loop:
  assumes "except_EWSError (inbox_counts a w) = (None, w1)"
    and "for_messages c (unread a) w1 0 [] = (r, w2, n, mm)"
    and "except_EWSError (r, w2) = (None, w3)"
  shows "poll a c w =
    (case mark_messages_read a mm w3 of
       (Some e, w4) \<Rightarrow> (Inl e, w4)
     | (None, w4) \<Rightarrow> (Inr n, metrics_set ''message_process_count'' (int n) w4))"
  by (simp add: poll_def assms)





subsection \<open>Errors that a cycle handles\<close>

lemma iteration_error_mem:
  "iteration_error stream = Some e \<Longrightarrow> Inl e \<in> set stream"
  by (induction stream rule: iteration_error.induct) simp_all

lemma counts_caught:
  assumes "\<forall>e. total_count a = Inl e \<longrightarrow> e = EWSError"
    and "\<forall>e. unread_count a = Inl e \<longrightarrow> e = EWSError"
  shows "fst (except_EWSError (inbox_counts a w)) = None"
    and "stats (snd (except_EWSError (inbox_counts a w))) ''owa_api_failure_count''
        = stats w ''owa_api_failure_count''
          + (if isl (total_count a) \<or> isl (unread_count a) then 1 else 0)"
proof -
  have "fst (except_EWSError (inbox_counts a w)) = None
    \<and> stats (snd (except_EWSError (inbox_counts a w))) ''owa_api_failure_count''
        = stats w ''owa_api_failure_count''
          + (if isl (total_count a) \<or> isl (unread_count a) then 1 else 0)"
  proof (cases "total_count a")
    case (Inl e)
    with assms(1) have "e = EWSError" by simp
    with Inl show ?thesis
      by (simp add: inbox_counts_def except_EWSError_def metrics_incr_def)
  next
    case t: (Inr t)
    show ?thesis
    proof (cases "unread_count a")
      case (Inl e)
      with assms(2) have "e = EWSError" by simp
      with Inl t show ?thesis
        by (simp add: inbox_counts_def except_EWSError_def metrics_incr_def metrics_set_def)
    next
      case (Inr u)
      with t show ?thesis
        by (simp add: inbox_counts_def except_EWSError_def metrics_set_def)
    qed
  qed
  then show "fst (except_EWSError (inbox_counts a w)) = None"
    and "stats (snd (except_EWSError (inbox_counts a w))) ''owa_api_failure_count''
        = stats w ''owa_api_failure_count''
          + (if isl (total_count a) \<or> isl (unread_count a) then 1 else 0)"
    by simp_all
qed

lemma bulk_caught:
  assumes "\<forall>items e. bulk_update a items = Some e \<longrightarrow> e = EWSError"
  shows "fst (mark_messages_read a mm w) = None"
    and "stats (snd (mark_messages_read a mm w)) ''owa_api_failure_count''
        = stats w ''owa_api_failure_count''
          + (if mm \<noteq> [] \<and> bulk_update a mm \<noteq> None then 1 else 0)"
proof -
  have "fst (mark_messages_read a mm w) = None
    \<and> stats (snd (mark_messages_read a mm w)) ''owa_api_failure_count''
        = stats w ''owa_api_failure_count''
          + (if mm \<noteq> [] \<and> bulk_update a mm \<noteq> None then 1 else 0)"
  proof (cases "bulk_update a mm")
    case None
    then show ?thesis by (simp add: mark_messages_read_def except_EWSError_def)
  next
    case (Some e)
    with assms have "e = EWSError" by simp
    with Some show ?thesis
      by (simp add: mark_messages_read_def except_EWSError_def metrics_incr_def)
  qed
  then show "fst (mark_messages_read a mm w) = None"
    and "stats (snd (mark_messages_read a mm w)) ''owa_api_failure_count''
        = stats w ''owa_api_failure_count''
          + (if mm \<noteq> [] \<and> bulk_update a mm \<noteq> None then 1 else 0)"
    by simp_all
qed

lemma poll_handled:
  assumes "\<forall>e. total_count a = Inl e \<longrightarrow> e = EWSError"
    and "\<forall>e. unread_count a = Inl e \<longrightarrow> e = EWSError"
    and "\<forall>e. Inl e \<in> set (unread a) \<longrightarrow> e = EWSError"
    and "\<forall>items e. bulk_update a items = Some e \<longrightarrow> e = EWSError"
    and "\<forall>earlier call e. c earlier call = Raises e \<longrightarrow> e = RequestException"
  shows "fst (poll a c w) = Inr (length (iterated (unread a)))
    \<and> stats (snd (poll a c w)) ''message_process_count'' = int (length (iterated (unread a)))
    \<and> stats (snd (poll a c w)) ''owa_api_failure_count''
        = stats w ''owa_api_failure_count''
          + (if isl (total_count a) \<or> isl (unread_count a) then 1 else 0)
          + (if iteration_error (unread a) = None then 0 else 1)
          + (if iterated (unread a) \<noteq> []
                \<and> bulk_update a (map mark_read (iterated (unread a))) \<noteq> None
             then 1 else 0)"
proof -
  obtain w1 where st1: "except_EWSError (inbox_counts a w) = (None, w1)"
    using counts_caught(1) [OF assms(1,2), of w]
    by (cases "except_EWSError (inbox_counts a w)") simp
  from counts_caught(2) [OF assms(1,2), of w] st1
  have s1: "stats w1 ''owa_api_failure_count'' = stats w ''owa_api_failure_count''
          + (if isl (total_count a) \<or> isl (unread_count a) then 1 else 0)" by simp
  obtain r w2 n mm where st2: "for_messages c (unread a) w1 0 [] = (r, w2, n, mm)"
    by (cases "for_messages c (unread a) w1 0 []")
  from for_messages_result [OF st2 assms(5)] have r: "r = iteration_error (unread a)" .
  have r': "r = None \<or> r = Some EWSError"
  proof (cases r)
    case None
    then show ?thesis by simp
  next
    case (Some e)
    with r have "Inl e \<in> set (unread a)" by (simp add: iteration_error_mem)
    with assms(3) Some show ?thesis by simp
  qed
  from assms(5) have noews: "\<forall>earlier call. c earlier call \<noteq> Raises EWSError" by auto
  from for_messages_iterated [OF st2 noews r']
  have loop: "n = length (iterated (unread a))" "mm = map mark_read (iterated (unread a))"
    by simp_all
  from for_messages_keeps [OF st2]
  have s2: "stats w2 ''owa_api_failure_count'' = stats w1 ''owa_api_failure_count''" by simp
  obtain w3 where st3: "except_EWSError (r, w2) = (None, w3)"
    and s3: "stats w3 ''owa_api_failure_count''
               = stats w2 ''owa_api_failure_count'' + (if r = None then 0 else 1)"
    using r' by (auto simp: except_EWSError_def metrics_incr_def)
  obtain w4 where st4: "mark_messages_read a mm w3 = (None, w4)"
    using bulk_caught(1) [OF assms(4), of mm w3]
    by (cases "mark_messages_read a mm w3") simp
  from bulk_caught(2) [OF assms(4), of mm w3] st4
  have s4: "stats w4 ''owa_api_failure_count'' = stats w3 ''owa_api_failure_count''
          + (if mm \<noteq> [] \<and> bulk_update a mm \<noteq> None then 1 else 0)" by simp
  have p: "poll a c w = (Inr n, metrics_set ''message_process_count'' (int n) w4)"
    by (simp add: poll_after_loop [OF st1 st2 st3] st4)
  have "stats (snd (poll a c w)) ''owa_api_failure_count'' = stats w4 ''owa_api_failure_count''"
    by (simp add: p metrics_set_def)
  moreover have "stats (snd (poll a c w)) ''message_process_count'' = int n"
    by (simp add: p metrics_set_def)
  ultimately show ?thesis using s1 s2 s3 s4 r loop p by simp
qed

text \<open>
  An exception of a class that neither handler names leaves poll as well, here one
  raised by the POST.
\<close>

lemma poll_other_exception_escapes:
  "fst (poll inbox3 (raising OtherException) fresh_world) = Inl OtherException"
  by (simp add: poll_def inbox_counts_def except_EWSError_def inbox3_def relay_def Let_def
      is_pointless_message_def email_headers_to_ignore_def header_dict_def
      synthetic_headers_def raising_def M3_def metrics_set_def)

subsection \<open>Items that lack a sender or a text body\<close>


lemma relay_item_present:
  "item_sender it = Some s \<Longrightarrow> item_text_body it = Some body \<Longrightarrow>
     relay_item it c w = relay (as_message it s body) c w"
  by (simp add: relay_item_def relay_def as_message_def synthetic_headers_def Let_def
      split: option.split)

lemma relay_item_of: "relay_item (item_of m) c w = relay m c w"
proof -
  have "as_message (item_of m) (sender m) (text_body m) = m"
    by (simp add: as_message_def item_of_def)
  with relay_item_present [of "item_of m" "sender m" "text_body m" c w] show ?thesis
    by (simp add: item_of_def)
qed












subsection \<open>The count of a cycle\<close>

text \<open>
  C6. The count that poll returns is recorded in the metric message_process_count and
  is the number of messages the loop took from the query, which is the number of calls
  of relay it made, whatever their exits (Sent, Ignored or Failed); for a downstream
  client that raises no provider error this is the number of messages the query yields
  before it ends or raises. And poll does return this count, with the metric set to
  it, when the provider raises nothing but EWSError and the POST nothing but
  RequestException.
\<close>

theorem poll_count:
  "(poll a c w = (Inr n, w') \<longrightarrow>
      stats w' ''message_process_count'' = int n
      \<and> n = length (relay_attempts c (unread a) (snd (except_EWSError (inbox_counts a w))))
      \<and> ((\<forall>earlier call. c earlier call \<noteq> Raises EWSError) \<longrightarrow>
            n = length (iterated (unread a))))
   \<and> ((\<forall>e. total_count a = Inl e \<longrightarrow> e = EWSError)
        \<and> (\<forall>e. unread_count a = Inl e \<longrightarrow> e = EWSError)
        \<and> (\<forall>e. Inl e \<in> set (unread a) \<longrightarrow> e = EWSError)
        \<and> (\<forall>items e. bulk_update a items = Some e \<longrightarrow> e = EWSError)
        \<and> (\<forall>earlier call e. c earlier call = Raises e \<longrightarrow> e = RequestException) \<longrightarrow>
      fst (poll a c w) = Inr (length (iterated (unread a)))
      \<and> stats (snd (poll a c w)) ''message_process_count''
           = int (length (iterated (unread a))))"
proof -
  have returned: "stats w' ''message_process_count'' = int n
      \<and> n = length (relay_attempts c (unread a) (snd (except_EWSError (inbox_counts a w))))
      \<and> ((\<forall>earlier call. c earlier call \<noteq> Raises EWSError) \<longrightarrow>
            n = length (iterated (unread a)))"
    if ret: "poll a c w = (Inr n, w')"
  proof -
    from ret obtain w1 r w2 mm w3 w4 where
      st: "except_EWSError (inbox_counts a w) = (None, w1)"
        "for_messages c (unread a) w1 0 [] = (r, w2, n, mm)"
        "except_EWSError (r, w2) = (None, w3)"
        "mark_messages_read a mm w3 = (None, w4)"
        "w' = metrics_set ''message_process_count'' (int n) w4"
      by (rule poll_InrD)
    from st(5) have a: "stats w' ''message_process_count'' = int n"
      by (simp add: metrics_set_def)
    from for_messages_count [OF st(2)] st(1)
    have b: "n = length (relay_attempts c (unread a) (snd (except_EWSError (inbox_counts a w))))"
      by simp
    have c: "n = length (iterated (unread a))"
      if "\<forall>earlier call. c earlier call \<noteq> Raises EWSError"
      using for_messages_iterated [OF st(2) that except_EWSError_None [OF st(3)]] by simp
    from a b c show ?thesis by blast
  qed
  have handled: "fst (poll a c w) = Inr (length (iterated (unread a)))
      \<and> stats (snd (poll a c w)) ''message_process_count''
           = int (length (iterated (unread a)))"
    if "\<forall>e. total_count a = Inl e \<longrightarrow> e = EWSError"
      and "\<forall>e. unread_count a = Inl e \<longrightarrow> e = EWSError"
      and "\<forall>e. Inl e \<in> set (unread a) \<longrightarrow> e = EWSError"
      and "\<forall>items e. bulk_update a items = Some e \<longrightarrow> e = EWSError"
      and "\<forall>earlier call e. c earlier call = Raises e \<longrightarrow> e = RequestException"
    using poll_handled [OF that, of w] by simp
  from returned handled show ?thesis by blast
qed

theorem poll_count_witness:
  "fst (poll inbox3 flaky fresh_world) = Inr 3
   \<and> stats (snd (poll inbox3 flaky fresh_world)) ''message_process_count'' = 3
   \<and> length (iterated (unread inbox3)) = 3
   \<and> length (relay_attempts flaky (unread inbox3)
        (snd (except_EWSError (inbox_counts inbox3 fresh_world)))) = 3"
proof -
  have eq: "poll inbox3 flaky fresh_world = (Inr 3, snd (poll inbox3 flaky fresh_world))"
    using poll_inbox3_flaky(1) by (metis prod.collapse)
  have ne: "\<forall>earlier call. flaky earlier call \<noteq> Raises EWSError"
    by (simp add: flaky_def)
  from poll_count [of inbox3 flaky fresh_world 3 "snd (poll inbox3 flaky fresh_world)"]
    eq ne poll_inbox3_flaky(1)
  show ?thesis by simp
qed

end
